theory Spec2Isabelle
  imports Complex_Main "HOL-Library.Char_ord" "HOL-Library.List_Lexorder"
begin

section \<open>Conventions of the embedding\<close>

text \<open>
  The development embeds two modules of the resume matcher:
  \<^verbatim>\<open>app/parser/cv_structured_parser.py\<close> (dates, sections, experience entries) and
  \<^verbatim>\<open>app/matching/semantic_matcher.py\<close> (the section-weighted scorer).

  \<^item> A Python \<^verbatim>\<open>str\<close> is a \<^typ>\<open>string\<close>: a list of characters with code points
    0..255. Character classes, case mapping and whitespace are those of Python on that
    range. Code points above 255 are not represented.
  \<^item> A Python \<^verbatim>\<open>float\<close> is a \<^typ>\<open>real\<close>: the arithmetic is exact, the rounding
    error of binary floating point is not represented.
  \<^item> A raised exception is the \<open>Inl\<close> branch of a sum type.
  \<^item> The sentence-embedding model, the cosine similarity of scikit-learn and the
    clock behind \<^verbatim>\<open>datetime.now()\<close> are parameters.
\<close>

datatype error = ValueError

section \<open>Character classes and string helpers of Python\<close>

definition is_upper_ascii :: "char \<Rightarrow> bool" where
  "is_upper_ascii c \<longleftrightarrow> CHR ''A'' \<le> c \<and> c \<le> CHR ''Z''"

definition is_lower_ascii :: "char \<Rightarrow> bool" where
  "is_lower_ascii c \<longleftrightarrow> CHR ''a'' \<le> c \<and> c \<le> CHR ''z''"

definition lower_char :: "char \<Rightarrow> char" where
  \<comment> \<open>\<^verbatim>\<open>str.lower\<close> on one character: A-Z, and the capital letters 0xC0-0xDE except the
      multiplication sign 0xD7, move up by 32.\<close>
  "lower_char c =
     (let n = (of_char c :: nat) in
      if (65 \<le> n \<and> n \<le> 90) \<or> (192 \<le> n \<and> n \<le> 222 \<and> n \<noteq> 215)
      then char_of (n + 32) else c)"


definition lower :: "string \<Rightarrow> string" where
  "lower s = map lower_char s"

definition isspace :: "char \<Rightarrow> bool" where
  \<comment> \<open>\<^verbatim>\<open>str.isspace\<close>, also the class \<^verbatim>\<open>\s\<close> of \<^verbatim>\<open>re\<close>: 0x09-0x0D, 0x1C-0x20, 0x85, 0xA0.\<close>
  "isspace c =
     (let n = (of_char c :: nat) in
      (9 \<le> n \<and> n \<le> 13) \<or> (28 \<le> n \<and> n \<le> 32) \<or> n = 133 \<or> n = 160)"

definition lstrip :: "string \<Rightarrow> string" where
  "lstrip s = dropWhile isspace s"

definition rstrip :: "string \<Rightarrow> string" where
  "rstrip s = rev (dropWhile isspace (rev s))"

definition strip :: "string \<Rightarrow> string" where
  "strip s = rstrip (lstrip s)"


fun split_ws_acc :: "string \<Rightarrow> string \<Rightarrow> string list" where
  "split_ws_acc w [] = (if w = [] then [] else [rev w])"
| "split_ws_acc w (c # cs) =
     (if isspace c then (if w = [] then split_ws_acc [] cs else rev w # split_ws_acc [] cs)
      else split_ws_acc (c # w) cs)"

definition split_ws :: "string \<Rightarrow> string list" where
  \<comment> \<open>\<^verbatim>\<open>str.split()\<close> without argument: the maximal runs of non-whitespace.\<close>
  "split_ws s = split_ws_acc [] s"

definition replace_char :: "char \<Rightarrow> char \<Rightarrow> string \<Rightarrow> string" where
  "replace_char a b s = map (\<lambda>c. if c = a then b else c) s"

definition dict_get :: "('k \<rightharpoonup> 'v) \<Rightarrow> 'k \<Rightarrow> 'v \<Rightarrow> 'v" where
  \<comment> \<open>\<^verbatim>\<open>d.get(k, default)\<close>\<close>
  "dict_get d k dflt = (case d k of None \<Rightarrow> dflt | Some v \<Rightarrow> v)"

section \<open>Regular expressions of Python, as lists of successes\<close>

text \<open>
  A matcher maps a text to the ways its expression matches at the start of the text, each
  given as the matched part and the rest, in the order in which the backtracking engine of
  \<^verbatim>\<open>re\<close> tries them: alternatives from left to right, a greedy repetition longest first,
  a lazy one shortest first. The head of the list is the match that \<^verbatim>\<open>re.match\<close> reports.
\<close>

type_synonym matcher = "string \<Rightarrow> (string \<times> string) list"

definition isdigit :: "char \<Rightarrow> bool" where
  \<comment> \<open>The class \<^verbatim>\<open>\d\<close>.\<close>
  "isdigit c \<longleftrightarrow> CHR ''0'' \<le> c \<and> c \<le> CHR ''9''"

definition isalpha_ascii :: "char \<Rightarrow> bool" where
  \<comment> \<open>The class \<^verbatim>\<open>[A-Za-z]\<close>.\<close>
  "isalpha_ascii c \<longleftrightarrow> is_upper_ascii c \<or> is_lower_ascii c"

definition in_range :: "char \<Rightarrow> char \<Rightarrow> char \<Rightarrow> bool" where
  "in_range a b c \<longleftrightarrow> a \<le> c \<and> c \<le> b"

definition re_cls :: "(char \<Rightarrow> bool) \<Rightarrow> matcher" where
  "re_cls P s = (case s of [] \<Rightarrow> [] | c # cs \<Rightarrow> if P c then [([c], cs)] else [])"

fun imatch :: "string \<Rightarrow> string \<Rightarrow> bool" where
  \<comment> \<open>A literal under \<^verbatim>\<open>re.IGNORECASE\<close> matches at the start of the text.\<close>
  "imatch [] t = True"
| "imatch (p # ps) [] = False"
| "imatch (p # ps) (c # cs) = (lower_char p = lower_char c \<and> imatch ps cs)"

definition re_ilit :: "string \<Rightarrow> matcher" where
  "re_ilit p s = (if imatch p s then [(take (length p) s, drop (length p) s)] else [])"

definition re_lit :: "string \<Rightarrow> matcher" where
  "re_lit p s = (if take (length p) s = p then [(p, drop (length p) s)] else [])"

definition re_seq :: "matcher \<Rightarrow> matcher \<Rightarrow> matcher" where
  "re_seq a b s = concat (map (\<lambda>(m1, r1). map (\<lambda>(m2, r2). (m1 @ m2, r2)) (b r1)) (a s))"

definition re_alt :: "matcher list \<Rightarrow> matcher" where
  "re_alt ms s = concat (map (\<lambda>m. m s) ms)"

definition re_eps :: matcher where
  "re_eps s = [([], s)]"

definition re_opt :: "matcher \<Rightarrow> matcher" where
  \<comment> \<open>\<^verbatim>\<open>x?\<close>\<close>
  "re_opt m = re_alt [m, re_eps]"

definition re_rep :: "(char \<Rightarrow> bool) \<Rightarrow> nat \<Rightarrow> nat option \<Rightarrow> matcher" where
  \<comment> \<open>\<^verbatim>\<open>[class]{lo,hi}\<close>, greedy; \<open>None\<close> for no upper bound.\<close>
  "re_rep P lo hi s =
     (let n = length (takeWhile P s);
          top = (case hi of None \<Rightarrow> n | Some h \<Rightarrow> min n h)
      in map (\<lambda>k. (take k s, drop k s)) (rev [lo ..< Suc top]))"

definition re_rep_lazy :: "(char \<Rightarrow> bool) \<Rightarrow> nat \<Rightarrow> matcher" where
  \<comment> \<open>\<^verbatim>\<open>[class]{lo,}?\<close>, lazy.\<close>
  "re_rep_lazy P lo s =
     (let n = length (takeWhile P s) in map (\<lambda>k. (take k s, drop k s)) [lo ..< Suc n])"

fun re_star_fuel :: "nat \<Rightarrow> matcher \<Rightarrow> matcher" where
  \<comment> \<open>\<^verbatim>\<open>(?:x)*\<close>, greedy. Every pass consumes a character, so \<open>length s\<close> passes suffice.\<close>
  "re_star_fuel 0 m s = [([], s)]"
| "re_star_fuel (Suc n) m s =
     concat (map (\<lambda>(m1, r1). map (\<lambda>(m2, r2). (m1 @ m2, r2)) (re_star_fuel n m r1))
                 (filter (\<lambda>(m1, r1). m1 \<noteq> []) (m s)))
     @ [([], s)]"

definition re_star :: "matcher \<Rightarrow> matcher" where
  "re_star m s = re_star_fuel (length s) m s"

section \<open>Dates\<close>

record datetime =
  year :: int
  month :: int
  day :: int
  hour :: int
  minute :: int
  second :: int
  microsecond :: int

definition is_leap :: "int \<Rightarrow> bool" where
  "is_leap y \<longleftrightarrow> y mod 4 = 0 \<and> (y mod 100 \<noteq> 0 \<or> y mod 400 = 0)"

definition days_in_month :: "int \<Rightarrow> int \<Rightarrow> int" where
  "days_in_month y m =
     (if m = 2 then (if is_leap y then 29 else 28)
      else if m = 4 \<or> m = 6 \<or> m = 9 \<or> m = 11 then 30 else 31)"

definition days_before_year :: "int \<Rightarrow> int" where
  "days_before_year y = (y - 1) * 365 + (y - 1) div 4 - (y - 1) div 100 + (y - 1) div 400"

definition days_before_month :: "int \<Rightarrow> int \<Rightarrow> int" where
  "days_before_month y m = (\<Sum>k\<leftarrow>[1 ..< nat m]. days_in_month y (int k))"

definition ymd2ord :: "int \<Rightarrow> int \<Rightarrow> int \<Rightarrow> int" where
  "ymd2ord y m d = days_before_year y + days_before_month y m + d"

definition valid_date :: "int \<Rightarrow> int \<Rightarrow> int \<Rightarrow> bool" where
  \<comment> \<open>The check of the \<^verbatim>\<open>datetime\<close> constructor on year, month and day.\<close>
  "valid_date y m d \<longleftrightarrow> 1 \<le> y \<and> y \<le> 9999 \<and> 1 \<le> m \<and> m \<le> 12 \<and> 1 \<le> d \<and> d \<le> days_in_month y m"

definition make_datetime :: "int \<Rightarrow> int \<Rightarrow> int \<Rightarrow> error + datetime" where
  \<comment> \<open>\<^verbatim>\<open>datetime(y, m, d)\<close>: midnight of a valid date, or \<^verbatim>\<open>ValueError\<close>.\<close>
  "make_datetime y m d =
     (if valid_date y m d
      then Inr \<lparr>year = y, month = m, day = d, hour = 0, minute = 0, second = 0, microsecond = 0\<rparr>
      else Inl ValueError)"

definition to_microseconds :: "datetime \<Rightarrow> int" where
  "to_microseconds t =
     (((ymd2ord (year t) (month t) (day t) * 24 + hour t) * 60 + minute t) * 60 + second t) * 1000000
       + microsecond t"

definition timedelta_days :: "datetime \<Rightarrow> datetime \<Rightarrow> int" where
  \<comment> \<open>\<^verbatim>\<open>(a - b).days\<close>: a \<^verbatim>\<open>timedelta\<close> is normalized with seconds and microseconds
      non-negative, so its days are the floor of the difference.\<close>
  "timedelta_days a b = (to_microseconds a - to_microseconds b) div (86400 * 1000000)"

definition dt_less :: "datetime \<Rightarrow> datetime \<Rightarrow> bool" where
  \<comment> \<open>\<^verbatim>\<open>a < b\<close> on \<^verbatim>\<open>datetime\<close>: the fields compared in order.\<close>
  "dt_less a b \<longleftrightarrow>
     [year a, month a, day a, hour a, minute a, second a, microsecond a]
       < [year b, month b, day b, hour b, minute b, second b, microsecond b]"

definition valid_datetime :: "datetime \<Rightarrow> bool" where
  \<comment> \<open>The ranges that the \<^verbatim>\<open>datetime\<close> constructor enforces on every field.\<close>
  "valid_datetime t \<longleftrightarrow>
     valid_date (year t) (month t) (day t) \<and> 0 \<le> hour t \<and> hour t < 24 \<and>
     0 \<le> minute t \<and> minute t < 60 \<and> 0 \<le> second t \<and> second t < 60 \<and>
     0 \<le> microsecond t \<and> microsecond t < 1000000"

definition time_of_day :: "datetime \<Rightarrow> int" where
  "time_of_day t = ((hour t * 60 + minute t) * 60 + second t) * 1000000 + microsecond t"

subsection \<open>\<^verbatim>\<open>datetime.strptime\<close>\<close>

definition month_abbr :: "string list" where
  "month_abbr = [''jan'', ''feb'', ''mar'', ''apr'', ''may'', ''jun'',
                 ''jul'', ''aug'', ''sep'', ''oct'', ''nov'', ''dec'']"

definition month_full :: "string list" where
  "month_full = [''january'', ''february'', ''march'', ''april'', ''may'', ''june'',
                 ''july'', ''august'', ''september'', ''october'', ''november'', ''december'']"

definition by_length_desc :: "string list \<Rightarrow> string list" where
  \<comment> \<open>\<^verbatim>\<open>sorted(names, key=len, reverse=True)\<close>, which is stable.\<close>
  "by_length_desc xs = concat (map (\<lambda>n. filter (\<lambda>x. length x = n) xs) (rev [0 ..< 10]))"

definition directive :: "char \<Rightarrow> matcher" where
  \<comment> \<open>The expressions that \<^verbatim>\<open>_strptime.TimeRE\<close> substitutes for the directives.\<close>
  "directive d =
     (if d = CHR ''Y'' then re_rep isdigit 4 (Some 4)
      else if d = CHR ''m'' then
        re_alt [re_seq (re_lit ''1'') (re_cls (in_range CHR ''0'' CHR ''2'')),
                re_seq (re_lit ''0'') (re_cls (in_range CHR ''1'' CHR ''9'')),
                re_cls (in_range CHR ''1'' CHR ''9'')]
      else if d = CHR ''d'' then
        re_alt [re_seq (re_lit ''3'') (re_cls (in_range CHR ''0'' CHR ''1'')),
                re_seq (re_cls (in_range CHR ''1'' CHR ''2'')) (re_cls isdigit),
                re_seq (re_lit ''0'') (re_cls (in_range CHR ''1'' CHR ''9'')),
                re_cls (in_range CHR ''1'' CHR ''9''),
                re_seq (re_lit '' '') (re_cls (in_range CHR ''1'' CHR ''9''))]
      else if d = CHR ''b'' then re_alt (map re_ilit (by_length_desc month_abbr))
      else if d = CHR ''B'' then re_alt (map re_ilit (by_length_desc month_full))
      else (\<lambda>s. []))"

fun format_match :: "string \<Rightarrow> string \<Rightarrow> ((char \<times> string) list \<times> string) list" where
  \<comment> \<open>The expression of a format: a directive is a named group, a run of whitespace is
      \<^verbatim>\<open>\s+\<close>, any other character stands for itself.\<close>
  "format_match [] s = [([], s)]"
| "format_match [c] s =
     (if isspace c then map (\<lambda>(m, r). ([], r)) (re_rep isspace 1 None s)
      else map (\<lambda>(m, r). ([], r)) (re_ilit [c] s))"
| "format_match (c # d # fmt) s =
     (if c = CHR ''%'' then
        concat (map (\<lambda>(m, r). map (\<lambda>(g, r'). ((d, m) # g, r')) (format_match fmt r)) (directive d s))
      else if isspace c then
        (if isspace d then format_match (d # fmt) s
         else concat (map (\<lambda>(m, r). format_match (d # fmt) r) (re_rep isspace 1 None s)))
      else concat (map (\<lambda>(m, r). format_match (d # fmt) r) (re_ilit [c] s)))"

definition digit_val :: "char \<Rightarrow> int" where
  "digit_val c = int (of_char c) - 48"

definition int_of_digits :: "string \<Rightarrow> int" where
  \<comment> \<open>\<^verbatim>\<open>int(s)\<close> on what a numeric directive matched: digits, after an optional blank.\<close>
  "int_of_digits s = foldl (\<lambda>n c. 10 * n + digit_val c) 0 (filter isdigit s)"

fun index_of :: "string \<Rightarrow> string list \<Rightarrow> int" where
  "index_of x [] = 0"
| "index_of x (y # ys) = (if x = y then 0 else 1 + index_of x ys)"

definition found_month :: "(char \<times> string) list \<Rightarrow> int" where
  "found_month found =
     (case map_of found CHR ''m'' of Some v \<Rightarrow> int_of_digits v
      | None \<Rightarrow> (case map_of found CHR ''B'' of Some v \<Rightarrow> 1 + index_of (lower v) month_full
        | None \<Rightarrow> (case map_of found CHR ''b'' of Some v \<Rightarrow> 1 + index_of (lower v) month_abbr
          | None \<Rightarrow> 1)))"

definition strptime :: "string \<Rightarrow> string \<Rightarrow> error + datetime" where
  "strptime data_string fmt =
     (case format_match fmt data_string of
        [] \<Rightarrow> Inl ValueError
      | (found, rest) # _ \<Rightarrow>
          if rest \<noteq> [] then Inl ValueError
          else make_datetime
                 (case map_of found CHR ''Y'' of Some v \<Rightarrow> int_of_digits v | None \<Rightarrow> 1900)
                 (found_month found)
                 (case map_of found CHR ''d'' of Some v \<Rightarrow> int_of_digits v | None \<Rightarrow> 1))"

subsection \<open>\<^verbatim>\<open>parse_date\<close>\<close>

definition date_formats :: "string list" where
  "date_formats =
     [''%Y-%m-%d'', ''%Y/%m/%d'',
      ''%Y-%m'', ''%Y/%m'',
      ''%d-%m-%Y'', ''%d/%m/%Y'',
      ''%b %Y'', ''%B %Y'']"

fun try_formats :: "string list \<Rightarrow> string \<Rightarrow> error + datetime" where
  \<comment> \<open>The loop \<^verbatim>\<open>for fmt in date_formats\<close>, and the \<^verbatim>\<open>raise\<close> behind it.\<close>
  "try_formats [] s = Inl ValueError"
| "try_formats (fmt # fmts) s =
     (case strptime s fmt of Inr t \<Rightarrow> Inr t | Inl ValueError \<Rightarrow> try_formats fmts s)"

definition parse_date :: "datetime \<Rightarrow> string \<Rightarrow> error + datetime" where
  \<comment> \<open>\<open>now\<close> is what \<^verbatim>\<open>datetime.now()\<close> returns.\<close>
  "parse_date now date_str =
     (let s = strip date_str in
      if lower s \<in> {''present'', ''now''} then Inr now
      else try_formats date_formats s)"

section \<open>The section segmenter\<close>










section \<open>The experience extractor\<close>

fun splitlines_acc :: "string \<Rightarrow> string \<Rightarrow> string list" where
  "splitlines_acc w [] = (if w = [] then [] else [rev w])"
| "splitlines_acc w [c] =
     (if (of_char c :: nat) \<in> {10, 11, 12, 13, 28, 29, 30, 133} then [rev w] else [rev (c # w)])"
| "splitlines_acc w (c # d # cs) =
     (if (of_char c :: nat) = 13 \<and> (of_char d :: nat) = 10 then rev w # splitlines_acc [] cs
      else if (of_char c :: nat) \<in> {10, 11, 12, 13, 28, 29, 30, 133}
        then rev w # splitlines_acc [] (d # cs)
      else splitlines_acc (c # w) (d # cs))"

definition splitlines :: "string \<Rightarrow> string list" where
  \<comment> \<open>\<^verbatim>\<open>str.splitlines()\<close>: the line boundaries are LF, VT, FF, CR, CR LF, FS, GS, RS, NEL.\<close>
  "splitlines s = splitlines_acc [] s"

definition numeric_date :: matcher where
  \<comment> \<open>\<^verbatim>\<open>\d{1,2}[/-]\d{1,2}[/-]\d{2,4}\<close>\<close>
  "numeric_date =
     re_seq (re_rep isdigit 1 (Some 2))
       (re_seq (re_cls (\<lambda>c. c = CHR ''/'' \<or> c = CHR ''-''))
         (re_seq (re_rep isdigit 1 (Some 2))
           (re_seq (re_cls (\<lambda>c. c = CHR ''/'' \<or> c = CHR ''-'')) (re_rep isdigit 2 (Some 4)))))"

definition month_year :: matcher where
  \<comment> \<open>\<^verbatim>\<open>[A-Za-z]{3,}\.? ?\d{4}\<close>\<close>
  "month_year =
     re_seq (re_rep isalpha_ascii 3 None)
       (re_seq (re_opt (re_lit ''.''))
         (re_seq (re_opt (re_lit '' '')) (re_rep isdigit 4 (Some 4))))"

definition year_month :: matcher where
  \<comment> \<open>\<^verbatim>\<open>\d{4}[/-]\d{2}\<close>\<close>
  "year_month =
     re_seq (re_rep isdigit 4 (Some 4))
       (re_seq (re_cls (\<lambda>c. c = CHR ''/'' \<or> c = CHR ''-'')) (re_rep isdigit 2 (Some 2)))"

definition range_separator :: matcher where
  \<comment> \<open>\<^verbatim>\<open>\s*(?:-|en dash|em dash|to)\s*\<close>; the two dashes have code points above 255.\<close>
  "range_separator =
     re_seq (re_rep isspace 0 None)
       (re_seq (re_alt [re_lit ''-'', re_ilit ''to'']) (re_rep isspace 0 None))"

definition date_pattern :: "string \<Rightarrow> (string \<times> string \<times> string) list" where
  \<comment> \<open>The ways \<^verbatim>\<open>date_pattern\<close> matches at the start of the text: the groups \<^verbatim>\<open>start\<close> and
      \<^verbatim>\<open>end\<close>, and the rest behind the match.\<close>
  "date_pattern s =
     concat (map (\<lambda>(st, r1).
       concat (map (\<lambda>(sp, r2).
         map (\<lambda>(en, r3). (st, en, r3))
           (re_alt [numeric_date, re_ilit ''Present'', re_ilit ''Now'', month_year, year_month] r2))
         (range_separator r1)))
       (re_alt [numeric_date, month_year, year_month] s))"

record re_match =
  m_start :: nat
  m_end :: nat
  group_start :: string
  group_end :: string

fun finditer_from :: "nat \<Rightarrow> nat \<Rightarrow> string \<Rightarrow> re_match list" where
  \<comment> \<open>\<^verbatim>\<open>date_pattern.finditer\<close> from position \<open>pos\<close>, the next \<open>skip\<close> characters being inside
      the previous match. A match of \<^verbatim>\<open>date_pattern\<close> is never empty.\<close>
  "finditer_from pos skip [] = []"
| "finditer_from pos (Suc k) (c # cs) = finditer_from (Suc pos) k cs"
| "finditer_from pos 0 (c # cs) =
     (case date_pattern (c # cs) of
        [] \<Rightarrow> finditer_from (Suc pos) 0 cs
      | (st, en, rest) # _ \<Rightarrow>
          (let n = length (c # cs) - length rest in
           \<lparr>m_start = pos, m_end = pos + n, group_start = st, group_end = en\<rparr>
             # finditer_from (Suc pos) (n - 1) cs))"

definition finditer :: "string \<Rightarrow> re_match list" where
  "finditer seg = finditer_from 0 0 seg"

definition noise_keywords :: "string list" where
  "noise_keywords = [''During'', ''Business'', ''Website'', ''Key'', ''As'']"

fun split_head :: "string \<Rightarrow> string" where
  \<comment> \<open>\<^verbatim>\<open>re.split(r'During|Business|Website|Key|As', s)[0]\<close>: the text before the leftmost match.\<close>
  "split_head [] = []"
| "split_head (c # cs) =
     (if re_alt (map re_lit noise_keywords) (c # cs) \<noteq> [] then [] else c # split_head cs)"

definition strip_chars :: "string \<Rightarrow> string \<Rightarrow> string" where
  \<comment> \<open>\<^verbatim>\<open>s.strip(chars)\<close>\<close>
  "strip_chars chars s =
     rev (dropWhile (\<lambda>c. c \<in> set chars) (rev (dropWhile (\<lambda>c. c \<in> set chars) s)))"

definition comma_prefix :: matcher where
  \<comment> \<open>\<^verbatim>\<open>^[a-z]+(?:\s+[a-z]+)*,\s*\<close>\<close>
  "comma_prefix =
     re_seq (re_rep is_lower_ascii 1 None)
       (re_seq (re_star (re_seq (re_rep isspace 1 None) (re_rep is_lower_ascii 1 None)))
         (re_seq (re_lit '','') (re_rep isspace 0 None)))"

definition sub_comma_prefix :: "string \<Rightarrow> string" where
  \<comment> \<open>\<^verbatim>\<open>re.sub\<close> of \<^verbatim>\<open>comma_prefix\<close> by the empty string: the anchor allows a match at the
      start only.\<close>
  "sub_comma_prefix s = (case comma_prefix s of [] \<Rightarrow> s | (m, r) # _ \<Rightarrow> r)"

definition role_at_company :: "string \<Rightarrow> (string \<times> string) list" where
  \<comment> \<open>\<^verbatim>\<open>(?P<role>.+?)\s+at\s+(?P<company>.+)\<close> with \<^verbatim>\<open>re.IGNORECASE\<close>: the two groups.\<close>
  "role_at_company s =
     concat (map (\<lambda>(ro, r1).
       concat (map (\<lambda>(sp, r2). map (\<lambda>(co, r3). (ro, co)) (re_rep (\<lambda>c. (of_char c :: nat) \<noteq> 10) 1 None r2))
         (re_seq (re_rep isspace 1 None) (re_seq (re_ilit ''at'') (re_rep isspace 1 None)) r1)))
       (re_rep_lazy (\<lambda>c. (of_char c :: nat) \<noteq> 10) 1 s))"

record entry =
  role :: string
  company :: string
  start_date :: datetime
  end_date :: datetime
  duration :: real

definition match_entry :: "datetime \<Rightarrow> string \<Rightarrow> re_match \<Rightarrow> error + entry" where
  \<comment> \<open>The body of the loop over the matches of a line; \<open>Inl\<close> where the \<^verbatim>\<open>try\<close> block raises.\<close>
  "match_entry now seg m =
     (case parse_date now (group_start m) of
        Inl e \<Rightarrow> Inl e
      | Inr sd \<Rightarrow>
         (case parse_date now (group_end m) of
            Inl e \<Rightarrow> Inl e
          | Inr ed \<Rightarrow>
             (let dur = real_of_int (timedelta_days ed sd) / 365;
                  after = strip (drop (m_end m) seg);
                  label_part = (if after \<noteq> [] then after else strip (take (m_start m) seg));
                  label_clean = strip_chars '' -:'' (split_head label_part);
                  label_clean = sub_comma_prefix label_clean
              in (case role_at_company label_clean of
                    (ro, co) # _ \<Rightarrow>
                      Inr \<lparr>role = strip ro, company = strip co, start_date = sd,
                           end_date = ed, duration = dur\<rparr>
                  | [] \<Rightarrow>
                      Inr \<lparr>role = label_clean, company = [], start_date = sd,
                           end_date = ed, duration = dur\<rparr>))))"

definition parsed :: "datetime \<Rightarrow> string \<Rightarrow> re_match \<Rightarrow> entry option" where
  \<comment> \<open>The entry of a match, if the \<^verbatim>\<open>try\<close> block does not raise.\<close>
  "parsed now seg m = (case match_entry now seg m of Inl e \<Rightarrow> None | Inr e \<Rightarrow> Some e)"

definition match_step :: "datetime \<Rightarrow> string \<Rightarrow> entry list \<Rightarrow> re_match \<Rightarrow> entry list" where
  \<comment> \<open>\<^verbatim>\<open>except ValueError: continue\<close>, or \<^verbatim>\<open>entries.append\<close>.\<close>
  "match_step now seg entries m =
     (case match_entry now seg m of Inl ValueError \<Rightarrow> entries | Inr e \<Rightarrow> entries @ [e])"

definition line_step :: "datetime \<Rightarrow> entry list \<Rightarrow> string \<Rightarrow> entry list" where
  "line_step now entries line =
     (let seg = strip line in
      if seg = [] then entries else foldl (match_step now seg) entries (finditer seg))"

definition extract_experience :: "datetime \<Rightarrow> string \<Rightarrow> entry list" where
  "extract_experience now text =
     (if text = [] then [] else foldl (line_step now) [] (splitlines text))"

section \<open>The semantic scorer\<close>

definition SECTIONS :: "string list" where
  "SECTIONS = [''skills'', ''experience'', ''education'']"















definition find_missing_keywords :: "(string \<rightharpoonup> string) \<Rightarrow> (string \<rightharpoonup> string) \<Rightarrow> string list" where
  "find_missing_keywords cv jd =
     (let missing =
        foldl (\<lambda>missing sec.
                 let cv_words = set (split_ws (replace_char CHR '','' CHR '' '' (lower (dict_get cv sec []))));
                     jd_words = set (split_ws (replace_char CHR '','' CHR '' '' (lower (dict_get jd sec []))))
                 in missing \<union> (jd_words - cv_words))
              {} SECTIONS
      in sorted_list_of_set missing)"

section \<open>Reference definitions for the missing keywords\<close>

text \<open>
  Splitting on a class of separators, token by token: skip the separators, take the run of
  other characters, go on behind it. This is the reading of ``split on whitespace and
  commas'' against which \<open>find_missing_keywords\<close> is compared.
\<close>

function split_on :: "(char \<Rightarrow> bool) \<Rightarrow> string \<Rightarrow> string list" where
  "split_on sep s =
     (let r = dropWhile sep s in
      if r = [] then []
      else takeWhile (\<lambda>c. \<not> sep c) r # split_on sep (dropWhile (\<lambda>c. \<not> sep c) r))"
  by pat_completeness auto
termination
proof (relation "measure (\<lambda>(sep, s). length s)")
  show "wf (measure (\<lambda>(sep, s). length s))" by simp
next
  fix sep :: "char \<Rightarrow> bool" and s r :: string
  assume r: "r = dropWhile sep s" and ne: "r \<noteq> []"
  from ne obtain c cs where c: "r = c # cs" by (auto simp: neq_Nil_conv)
  from ne have "\<not> sep (hd r)" unfolding r by (rule hd_dropWhile)
  then have "\<not> sep c" by (simp add: c)
  then have "length (dropWhile (\<lambda>c. \<not> sep c) r) \<le> length cs"
    by (simp add: c length_dropWhile_le)
  moreover have "length r \<le> length s" by (simp add: r length_dropWhile_le)
  ultimately show "((sep, dropWhile (\<lambda>c. \<not> sep c) r), (sep, s)) \<in> measure (\<lambda>(sep, s). length s)"
    by (simp add: c)
qed

definition is_separator :: "char \<Rightarrow> bool" where
  "is_separator c \<longleftrightarrow> isspace c \<or> c = CHR '',''"

definition spec_tokens :: "string \<Rightarrow> string set" where
  "spec_tokens s = set (split_on is_separator (lower s))"

section \<open>Properties of the scorer\<close>

subsection \<open>Rounding to two decimals\<close>




subsection \<open>The loop over the sections\<close>










subsection \<open>The entries of the report\<close>







subsection \<open>Construction\<close>




subsection \<open>The total score\<close>



subsection \<open>The ranges of the scores\<close>




subsection \<open>The best match\<close>




subsection \<open>The name of the best section\<close>




section \<open>Properties of the section segmenter\<close>














section \<open>Properties of the missing keywords\<close>

declare split_on.simps [simp del]

text \<open>Replacing commas by spaces and splitting on whitespace splits on both.\<close>

lemma sep_replaced:
  "isspace (if c = CHR '','' then CHR '' '' else c) \<longleftrightarrow> is_separator c"
  by (simp add: is_separator_def isspace_def)

lemma split_acc_nonsep:
  "\<forall>c\<in>set t. \<not> is_separator c \<Longrightarrow>
   split_ws_acc w (replace_char CHR '','' CHR '' '' (t @ r)) =
   split_ws_acc (rev t @ w) (replace_char CHR '','' CHR '' '' r)"
  by (induction t arbitrary: w) (simp_all add: replace_char_def sep_replaced, simp add: is_separator_def)


lemma split_acc_skip:
  "split_ws_acc [] (replace_char CHR '','' CHR '' '' s) =
   split_ws_acc [] (replace_char CHR '','' CHR '' '' (dropWhile is_separator s))"
  by (induction s) (simp_all add: replace_char_def sep_replaced)

lemma split_acc_flush:
  "w \<noteq> [] \<Longrightarrow> r = [] \<or> is_separator (hd r) \<Longrightarrow>
   split_ws_acc w (replace_char CHR '','' CHR '' '' r) =
   rev w # split_ws_acc [] (replace_char CHR '','' CHR '' '' r)"
  by (cases r) (simp_all add: replace_char_def sep_replaced)

lemma split_ws_replace:
  "split_ws (replace_char CHR '','' CHR '' '' s) = split_on is_separator s"
  unfolding split_ws_def
proof (induction is_separator s rule: split_on.induct)
  case (1 s)
  let ?f = "replace_char CHR '','' CHR '' ''"
  let ?r = "dropWhile is_separator s"
  show ?case
  proof (cases "?r = []")
    case True
    have "split_ws_acc [] (?f s) = split_ws_acc [] (?f ?r)" by (rule split_acc_skip)
    also have "\<dots> = []" unfolding True by (simp add: replace_char_def)
    also have "[] = split_on is_separator s"
      by (subst split_on.simps) (simp only: True Let_def, simp)
    finally show ?thesis .
  next
    case False
    let ?t = "takeWhile (\<lambda>c. \<not> is_separator c) ?r"
    let ?r' = "dropWhile (\<lambda>c. \<not> is_separator c) ?r"
    have hd: "\<not> is_separator (hd ?r)" using False by (metis hd_dropWhile)
    then have tne: "?t \<noteq> []" using False by (cases ?r) auto
    have nons: "\<forall>c\<in>set ?t. \<not> is_separator c" by (auto dest: set_takeWhileD)
    have bnd: "?r' = [] \<or> is_separator (hd ?r')"
      by (metis (mono_tags, lifting) hd_dropWhile)
    have "split_ws_acc [] (?f s) = split_ws_acc [] (?f (?t @ ?r'))"
      by (subst split_acc_skip) simp
    also have "\<dots> = split_ws_acc (rev ?t) (?f ?r')"
      using split_acc_nonsep[OF nons, of "[]" ?r'] by simp
    also have "\<dots> = ?t # split_ws_acc [] (?f ?r')"
      using split_acc_flush[of "rev ?t" ?r'] tne bnd by simp
    also have "\<dots> = ?t # split_on is_separator ?r'"
      using "1"[OF refl False] by simp
    also have "\<dots> = split_on is_separator s"
      using False by (subst (2) split_on.simps) (simp add: Let_def)
    finally show ?thesis .
  qed
qed

lemma missing_fold:
  "find_missing_keywords cv jd =
     sorted_list_of_set (\<Union>sec\<in>set SECTIONS.
        spec_tokens (dict_get jd sec []) - spec_tokens (dict_get cv sec []))"
  by (simp add: find_missing_keywords_def SECTIONS_def split_ws_replace spec_tokens_def Un_assoc)

text \<open>
  Claim C9: \<open>find_missing_keywords\<close> is the sorted sequence of the distinct tokens in the
  union, over the sections skills, experience, education, of the JD tokens that are not CV
  tokens, where the tokens of a section are those of its lowercased text split on whitespace
  and commas; for the CV skills ``python sql'' and the JD skills ``python sql aws'' the result
  has ``aws'' and neither ``python'' nor ``sql''.

  The list is strictly ascending, hence sorted and free of duplicates.
\<close>

theorem find_missing_keywords_spec:
  "set (find_missing_keywords cv jd) =
     (\<Union>sec\<in>set SECTIONS. spec_tokens (dict_get jd sec []) - spec_tokens (dict_get cv sec []))
   \<and> sorted_wrt (<) (find_missing_keywords cv jd)
   \<and> find_missing_keywords [''skills'' \<mapsto> ''python sql''] [''skills'' \<mapsto> ''python sql aws''] = [''aws'']"
proof -
  let ?M = "\<Union>sec\<in>set SECTIONS. spec_tokens (dict_get jd sec []) - spec_tokens (dict_get cv sec [])"
  have fin: "finite ?M" by (simp add: spec_tokens_def)
  have s: "set (find_missing_keywords cv jd) = ?M"
    unfolding missing_fold using fin by (rule set_sorted_list_of_set)
  have o: "sorted_wrt (<) (find_missing_keywords cv jd)"
    unfolding missing_fold by (rule strict_sorted_list_of_set)
  have e: "find_missing_keywords [''skills'' \<mapsto> ''python sql''] [''skills'' \<mapsto> ''python sql aws''] = [''aws'']"
    by code_simp
  from s o e show ?thesis by blast
qed

theorem find_missing_keywords_spec_witness:
  "set (find_missing_keywords
          [''skills'' \<mapsto> ''Python, SQL'', ''education'' \<mapsto> ''BSc'']
          [''skills'' \<mapsto> ''python,sql ,AWS'', ''experience'' \<mapsto> ''Docker  aws'']) = {''aws'', ''docker''}
   \<and> sorted_wrt (<) (find_missing_keywords
          [''skills'' \<mapsto> ''Python, SQL'', ''education'' \<mapsto> ''BSc'']
          [''skills'' \<mapsto> ''python,sql ,AWS'', ''experience'' \<mapsto> ''Docker  aws''])"
proof -
  let ?cv = "[''skills'' \<mapsto> ''Python, SQL'', ''education'' \<mapsto> ''BSc'']"
  let ?jd = "[''skills'' \<mapsto> ''python,sql ,AWS'', ''experience'' \<mapsto> ''Docker  aws'']"
  have "(\<Union>sec\<in>set SECTIONS. spec_tokens (dict_get ?jd sec []) - spec_tokens (dict_get ?cv sec []))
      = {''aws'', ''docker''}"
    by code_simp
  with find_missing_keywords_spec[of ?cv ?jd] show ?thesis by simp
qed

section \<open>Properties of dates\<close>

subsection \<open>The ordinal of a date grows with the date\<close>

lemma days_in_month_bounds: "28 \<le> days_in_month y m" "days_in_month y m \<le> 31"
  by (simp_all add: days_in_month_def)

lemma div_step: "0 < (k::int) \<Longrightarrow> y div k = (y - 1) div k + (if y mod k = 0 then 1 else 0)"
  by (smt (verit) div_add_self2 div_pos_pos_trivial minus_mod_eq_div_mult mod_pos_pos_trivial
      pos_mod_bound pos_mod_sign zdiv_mono1 zmod_zminus1_eq_if)

lemma days_before_year_step:
  "days_before_year (y + 1) = days_before_year y + (if is_leap y then 366 else 365)"
proof -
  have "y mod 4 = y mod 100 mod 4" "y mod 100 = y mod 400 mod 100"
    by (simp_all add: mod_mod_cancel)
  then have m: "y mod 100 = 0 \<Longrightarrow> y mod 4 = 0" "y mod 400 = 0 \<Longrightarrow> y mod 100 = 0"
    by simp_all
  have d4: "y div 4 = (y - 1) div 4 + (if y mod 4 = 0 then 1 else 0)" by (rule div_step) simp
  have d100: "y div 100 = (y - 1) div 100 + (if y mod 100 = 0 then 1 else 0)" by (rule div_step) simp
  have d400: "y div 400 = (y - 1) div 400 + (if y mod 400 = 0 then 1 else 0)" by (rule div_step) simp
  have l: "(if is_leap y then 366 else 365) =
      365 + (if y mod 4 = 0 then 1 else 0) - (if y mod 100 = 0 then 1 else 0)
        + (if y mod 400 = 0 then (1::int) else 0)"
    using m unfolding is_leap_def by (cases "y mod 4 = 0"; cases "y mod 100 = 0"; cases "y mod 400 = 0") simp_all
  have "days_before_year (y + 1) = y * 365 + y div 4 - y div 100 + y div 400"
    unfolding days_before_year_def by (simp only: add_diff_cancel_right')
  also have "\<dots> = days_before_year y + (365 + (if y mod 4 = 0 then 1 else 0)
      - (if y mod 100 = 0 then 1 else 0) + (if y mod 400 = 0 then 1 else 0))"
    unfolding days_before_year_def
    by (subst d4, subst d100, subst d400) (simp only: algebra_simps)
  finally show ?thesis by (simp only: l)
qed

lemma days_before_year_mono:
  "y < y' \<Longrightarrow> days_before_year y + (if is_leap y then 366 else 365) \<le> days_before_year y'"
proof (induction y' rule: int_gr_induct)
  case base
  then show ?case by (simp add: days_before_year_step)
next
  case (step i)
  have "days_before_year i \<le> days_before_year (i + 1)"
    by (simp add: days_before_year_step)
  with step.IH show ?case by linarith
qed

lemma days_before_month_step:
  "1 \<le> m \<Longrightarrow> days_before_month y (m + 1) = days_before_month y m + days_in_month y m"
proof -
  assume m: "1 \<le> m"
  then have "nat (m + 1) = Suc (nat m)" "1 \<le> nat m" by simp_all
  then have "[1 ..< nat (m + 1)] = [1 ..< nat m] @ [nat m]" by simp
  then show ?thesis using m by (simp add: days_before_month_def)
qed

lemma days_before_month_mono:
  assumes "1 \<le> m" and "m < m'"
  shows "days_before_month y m + days_in_month y m \<le> days_before_month y m'"
  using assms(2)
proof (induction m' rule: int_gr_induct)
  case base
  then show ?case using assms(1) by (simp add: days_before_month_step)
next
  case (step i)
  from step assms(1) have "days_before_month y (i + 1) = days_before_month y i + days_in_month y i"
    by (simp add: days_before_month_step)
  with step days_in_month_bounds(1)[of y i] show ?case by simp
qed

lemma days_before_month_13:
  "days_before_month y 13 = (if is_leap y then 366 else 365)"
proof -
  have "[1 ..< nat 13] = [1, 2, 3, 4, 5, 6, 7, 8, 9, 10, 11, 12]" by code_simp
  then show ?thesis by (simp add: days_before_month_def days_in_month_def)
qed

lemma days_before_month_nonneg: "0 \<le> days_before_month y m"
  unfolding days_before_month_def
proof (rule sum_list_nonneg)
  fix x
  assume "x \<in> set (map (\<lambda>k. days_in_month y (int k)) [1 ..< nat m])"
  then obtain k where "x = days_in_month y (int k)" by auto
  with days_in_month_bounds(1)[of y "int k"] show "0 \<le> x" by simp
qed

lemma day_of_year_bound:
  assumes "valid_date y m d"
  shows "1 \<le> days_before_month y m + d"
    and "days_before_month y m + d \<le> (if is_leap y then 366 else 365)"
proof -
  from assms have v: "1 \<le> m" "m \<le> 12" "1 \<le> d" "d \<le> days_in_month y m"
    by (simp_all add: valid_date_def)
  show "1 \<le> days_before_month y m + d"
    using days_before_month_nonneg[of y m] v(3) by simp
  have "days_before_month y m + days_in_month y m \<le> days_before_month y 13"
    using days_before_month_mono[of m 13 y] v by simp
  with v(4) show "days_before_month y m + d \<le> (if is_leap y then 366 else 365)"
    by (simp add: days_before_month_13 split: if_splits)
qed

lemma ymd2ord_mono:
  assumes a: "valid_date y m d" and b: "valid_date y' m' d'"
    and l: "y < y' \<or> (y = y' \<and> (m < m' \<or> (m = m' \<and> d < d')))"
  shows "ymd2ord y m d < ymd2ord y' m' d'"
proof -
  from l consider "y < y'" | "y = y'" "m < m'" | "y = y'" "m = m'" "d < d'" by blast
  then show ?thesis
  proof cases
    case 1
    from days_before_year_mono[OF 1] day_of_year_bound(2)[OF a] day_of_year_bound(1)[OF b]
    show ?thesis by (simp add: ymd2ord_def split: if_splits)
  next
    case 2
    from a b have v: "1 \<le> m" "d \<le> days_in_month y m" "1 \<le> d'" by (simp_all add: valid_date_def)
    from days_before_month_mono[OF v(1) 2(2), of y] v(2,3) 2(1) show ?thesis
      by (simp add: ymd2ord_def)
  next
    case 3
    then show ?thesis by (simp add: ymd2ord_def)
  qed
qed

lemma ymd2ord_inj:
  assumes a: "valid_date y m d" and b: "valid_date y' m' d'"
    and e: "ymd2ord y m d = ymd2ord y' m' d'"
  shows "y = y' \<and> m = m' \<and> d = d'"
proof (rule ccontr)
  assume "\<not> (y = y' \<and> m = m' \<and> d = d')"
  then have "(y < y' \<or> (y = y' \<and> (m < m' \<or> (m = m' \<and> d < d'))))
      \<or> (y' < y \<or> (y' = y \<and> (m' < m \<or> (m' = m \<and> d' < d))))" by auto
  then show False using ymd2ord_mono[OF a b] ymd2ord_mono[OF b a] e by auto
qed

lemma to_microseconds_split:
  "to_microseconds t = ymd2ord (year t) (month t) (day t) * 86400000000 + time_of_day t"
  by (simp add: to_microseconds_def time_of_day_def algebra_simps)

lemma time_of_day_bounds:
  "valid_datetime t \<Longrightarrow> 0 \<le> time_of_day t \<and> time_of_day t < 86400000000"
  unfolding valid_datetime_def time_of_day_def by auto



lemma time_of_day_lex:
  assumes "valid_datetime a" and "valid_datetime b"
  shows "[hour a, minute a, second a, microsecond a] < [hour b, minute b, second b, microsecond b]
     \<longleftrightarrow> time_of_day a < time_of_day b"
proof -
  from assms have
    a: "0 \<le> minute a" "minute a < 60" "0 \<le> second a" "second a < 60"
       "0 \<le> microsecond a" "microsecond a < 1000000"
    and b: "0 \<le> minute b" "minute b < 60" "0 \<le> second b" "second b < 60"
       "0 \<le> microsecond b" "microsecond b < 1000000"
    by (simp_all add: valid_datetime_def)
  have "[hour a, minute a, second a, microsecond a] < [hour b, minute b, second b, microsecond b]
     \<longleftrightarrow> hour a < hour b \<or> (hour a = hour b \<and> (minute a < minute b \<or> (minute a = minute b \<and>
          (second a < second b \<or> (second a = second b \<and> microsecond a < microsecond b)))))"
    by simp
  also have "\<dots> \<longleftrightarrow> time_of_day a < time_of_day b"
    unfolding time_of_day_def using a b by auto
  finally show ?thesis .
qed

lemma date_lex:
  assumes "valid_datetime a" and "valid_datetime b"
  shows "(year a < year b \<or> (year a = year b \<and> (month a < month b \<or> (month a = month b \<and> day a < day b))))
     \<longleftrightarrow> ymd2ord (year a) (month a) (day a) < ymd2ord (year b) (month b) (day b)"
    and "(year a = year b \<and> month a = month b \<and> day a = day b)
     \<longleftrightarrow> ymd2ord (year a) (month a) (day a) = ymd2ord (year b) (month b) (day b)"
proof -
  from assms have va: "valid_date (year a) (month a) (day a)" and vb: "valid_date (year b) (month b) (day b)"
    by (simp_all add: valid_datetime_def)
  show e: "(year a = year b \<and> month a = month b \<and> day a = day b)
     \<longleftrightarrow> ymd2ord (year a) (month a) (day a) = ymd2ord (year b) (month b) (day b)"
    using ymd2ord_inj[OF va vb] by auto
  show "(year a < year b \<or> (year a = year b \<and> (month a < month b \<or> (month a = month b \<and> day a < day b))))
     \<longleftrightarrow> ymd2ord (year a) (month a) (day a) < ymd2ord (year b) (month b) (day b)"
  proof
    assume "year a < year b \<or> (year a = year b \<and> (month a < month b \<or> (month a = month b \<and> day a < day b)))"
    then show "ymd2ord (year a) (month a) (day a) < ymd2ord (year b) (month b) (day b)"
      by (rule ymd2ord_mono[OF va vb])
  next
    assume l: "ymd2ord (year a) (month a) (day a) < ymd2ord (year b) (month b) (day b)"
    show "year a < year b \<or> (year a = year b \<and> (month a < month b \<or> (month a = month b \<and> day a < day b)))"
    proof (rule ccontr)
      assume "\<not> ?thesis"
      then have "(year b < year a \<or> (year b = year a \<and> (month b < month a \<or> (month b = month a \<and> day b < day a))))
          \<or> (year a = year b \<and> month a = month b \<and> day a = day b)"
        by auto
      then show False using ymd2ord_mono[OF vb va] e l by auto
    qed
  qed
qed

lemma dt_less_iff:
  assumes a: "valid_datetime a" and b: "valid_datetime b"
  shows "dt_less a b \<longleftrightarrow> to_microseconds a < to_microseconds b"
proof -
  let ?oa = "ymd2ord (year a) (month a) (day a)" and ?ob = "ymd2ord (year b) (month b) (day b)"
  have "dt_less a b \<longleftrightarrow>
      (year a < year b \<or> (year a = year b \<and> (month a < month b \<or> (month a = month b \<and> day a < day b))))
      \<or> ((year a = year b \<and> month a = month b \<and> day a = day b) \<and>
          [hour a, minute a, second a, microsecond a] < [hour b, minute b, second b, microsecond b])"
    unfolding dt_less_def by auto
  also have "\<dots> \<longleftrightarrow> ?oa < ?ob \<or> (?oa = ?ob \<and> time_of_day a < time_of_day b)"
    by (simp only: date_lex[OF a b] time_of_day_lex[OF a b])
  also have "\<dots> \<longleftrightarrow> to_microseconds a < to_microseconds b"
    using time_of_day_bounds[OF a] time_of_day_bounds[OF b]
    by (auto simp: to_microseconds_split)
  finally show ?thesis .
qed

lemma timedelta_days_negative:
  "timedelta_days a b < 0 \<longleftrightarrow> to_microseconds a < to_microseconds b"
  unfolding timedelta_days_def by (simp add: pos_imp_zdiv_neg_iff)


subsection \<open>Parsing a date\<close>








section \<open>Properties of the experience extractor\<close>

lemma make_datetime_valid: "make_datetime y m d = Inr t \<Longrightarrow> valid_datetime t"
  by (auto simp: make_datetime_def valid_datetime_def split: if_splits)

lemma strptime_valid: "strptime s f = Inr t \<Longrightarrow> valid_datetime t"
  by (auto simp: strptime_def split: list.splits prod.splits if_splits dest: make_datetime_valid)

lemma try_formats_valid: "try_formats fs s = Inr t \<Longrightarrow> valid_datetime t"
  by (induction fs) (auto split: sum.splits error.splits dest: strptime_valid)

lemma parse_date_valid:
  "valid_datetime now \<Longrightarrow> parse_date now s = Inr t \<Longrightarrow> valid_datetime t"
  by (auto simp: parse_date_def Let_def split: if_splits dest: try_formats_valid)

lemma match_entry_Inr:
  "match_entry now seg m = Inr e \<Longrightarrow>
     parse_date now (group_start m) = Inr (start_date e) \<and>
     parse_date now (group_end m) = Inr (end_date e) \<and>
     duration e = real_of_int (timedelta_days (end_date e) (start_date e)) / 365"
  by (auto simp: match_entry_def Let_def split: sum.splits list.splits prod.splits)


lemma parsed_Some: "parsed now seg m = Some e \<longleftrightarrow> match_entry now seg m = Inr e"
  by (cases "match_entry now seg m") (simp_all add: parsed_def)


lemma foldl_match_step:
  "foldl (match_step now seg) entries ms = entries @ List.map_filter (parsed now seg) ms"
  by (induction ms arbitrary: entries)
     (auto simp: match_step_def parsed_def split: sum.splits error.splits)

lemma line_step_eq:
  "line_step now entries line =
     entries @ List.map_filter (parsed now (strip line)) (finditer (strip line))"
  by (simp add: line_step_def Let_def foldl_match_step finditer_def)

lemma foldl_line_step:
  "foldl (line_step now) entries ls =
     entries @ concat (map (\<lambda>line. List.map_filter (parsed now (strip line)) (finditer (strip line))) ls)"
  by (induction ls arbitrary: entries) (simp_all add: line_step_eq)

lemma extract_experience_eq:
  "extract_experience now text =
     concat (map (\<lambda>line. List.map_filter (parsed now (strip line)) (finditer (strip line)))
                 (splitlines text))"
  by (simp add: extract_experience_def foldl_line_step splitlines_def)

lemma set_map_filter_iff: "e \<in> set (List.map_filter f xs) \<longleftrightarrow> (\<exists>x\<in>set xs. f x = Some e)"
  by (induction xs) (auto split: option.splits)

lemma extract_experience_member:
  "e \<in> set (extract_experience now text) \<Longrightarrow>
     \<exists>line\<in>set (splitlines text). \<exists>m\<in>set (finditer (strip line)).
        match_entry now (strip line) m = Inr e"
  by (auto simp: extract_experience_eq set_map_filter_iff parsed_Some)



text \<open>
  Claim C8: for every entry of the extractor, \<open>duration\<close> is the difference of the end date
  and the start date in days, divided by 365, computed from the dates as parsed and not
  swapped; so it is negative exactly when the parsed end date precedes the parsed start date.

  The days of the difference are whole days, rounded down. The value of the clock is a valid
  \<^verbatim>\<open>datetime\<close>.
\<close>

theorem extract_experience_duration:
  assumes now: "valid_datetime now" and e: "e \<in> set (extract_experience now text)"
  shows "(\<exists>line\<in>set (splitlines text). \<exists>m\<in>set (finditer (strip line)).
            parse_date now (group_start m) = Inr (start_date e) \<and>
            parse_date now (group_end m) = Inr (end_date e))
     \<and> duration e = real_of_int (timedelta_days (end_date e) (start_date e)) / 365
     \<and> (duration e < 0 \<longleftrightarrow> dt_less (end_date e) (start_date e))"
proof -
  from extract_experience_member[OF e] obtain line m where
    lm: "line \<in> set (splitlines text)" "m \<in> set (finditer (strip line))"
    and me: "match_entry now (strip line) m = Inr e"
    by blast
  from match_entry_Inr[OF me] have
    p: "parse_date now (group_start m) = Inr (start_date e)"
       "parse_date now (group_end m) = Inr (end_date e)"
    and d: "duration e = real_of_int (timedelta_days (end_date e) (start_date e)) / 365"
    by simp_all
  from p have v: "valid_datetime (start_date e)" "valid_datetime (end_date e)"
    using parse_date_valid[OF now] by blast+
  have "duration e < 0 \<longleftrightarrow> timedelta_days (end_date e) (start_date e) < 0"
    by (simp add: d divide_less_0_iff)
  also have "\<dots> \<longleftrightarrow> to_microseconds (end_date e) < to_microseconds (start_date e)"
    by (rule timedelta_days_negative)
  also have "\<dots> \<longleftrightarrow> dt_less (end_date e) (start_date e)"
    using dt_less_iff[OF v(2) v(1)] by simp
  finally have "duration e < 0 \<longleftrightarrow> dt_less (end_date e) (start_date e)" .
  with lm p d show ?thesis by blast
qed

theorem extract_experience_duration_witness:
  "valid_datetime \<lparr>year = 2026, month = 11, day = 4, hour = 10, minute = 30, second = 0, microsecond = 5\<rparr>
   \<and> \<lparr>role = ''Dev'', company = ''X'',
      start_date = \<lparr>year = 2020, month = 5, day = 1, hour = 0, minute = 0, second = 0, microsecond = 0\<rparr>,
      end_date = \<lparr>year = 2019, month = 1, day = 1, hour = 0, minute = 0, second = 0, microsecond = 0\<rparr>,
      duration = - 486 / 365\<rparr>
       \<in> set (extract_experience
          \<lparr>year = 2026, month = 11, day = 4, hour = 10, minute = 30, second = 0, microsecond = 5\<rparr>
          (''Jan 2019 - Present Software Engineer at Acme Corp'' @ [CHR 0x0A] @
       ''Sept 2020 - Now Intern; 2020-05 to 2019-01 Dev at X'' @ [CHR 0x0A] @ ''no dates here''))
   \<and> duration \<lparr>role = ''Dev'', company = ''X'',
      start_date = \<lparr>year = 2020, month = 5, day = 1, hour = 0, minute = 0, second = 0, microsecond = 0\<rparr>,
      end_date = \<lparr>year = 2019, month = 1, day = 1, hour = 0, minute = 0, second = 0, microsecond = 0\<rparr>,
      duration = - 486 / 365\<rparr> = real_of_int (timedelta_days
           \<lparr>year = 2019, month = 1, day = 1, hour = 0, minute = 0, second = 0, microsecond = 0\<rparr>
           \<lparr>year = 2020, month = 5, day = 1, hour = 0, minute = 0, second = 0, microsecond = 0\<rparr>) / 365
   \<and> dt_less \<lparr>year = 2019, month = 1, day = 1, hour = 0, minute = 0, second = 0, microsecond = 0\<rparr>
       \<lparr>year = 2020, month = 5, day = 1, hour = 0, minute = 0, second = 0, microsecond = 0\<rparr>"
proof -
  let ?now = "\<lparr>year = 2026, month = 11, day = 4, hour = 10, minute = 30, second = 0, microsecond = 5\<rparr>"
  let ?T = "(''Jan 2019 - Present Software Engineer at Acme Corp'' @ [CHR 0x0A] @
       ''Sept 2020 - Now Intern; 2020-05 to 2019-01 Dev at X'' @ [CHR 0x0A] @ ''no dates here'')"
  let ?e = "\<lparr>role = ''Dev'', company = ''X'',
      start_date = \<lparr>year = 2020, month = 5, day = 1, hour = 0, minute = 0, second = 0, microsecond = 0\<rparr>,
      end_date = \<lparr>year = 2019, month = 1, day = 1, hour = 0, minute = 0, second = 0, microsecond = 0\<rparr>,
      duration = - 486 / 365\<rparr>"
  have v: "valid_datetime ?now"
    by (simp add: valid_datetime_def valid_date_def days_in_month_def)
  have m: "?e \<in> set (extract_experience ?now ?T)" by code_simp
  have n: "duration ?e < 0" by simp
  from extract_experience_duration[OF v m] n
  have "duration ?e = real_of_int (timedelta_days (end_date ?e) (start_date ?e)) / 365"
    and "dt_less (end_date ?e) (start_date ?e)"
    by blast+
  then show ?thesis using v m by simp
qed



end
